theory Spec2Isabelle
  imports Complex_Main "HOL-Library.Word"
begin

section \<open>The white-noise pipeline of \<open>White noise.py\<close>\<close>

text \<open>
  The embedded functions are \<open>generate_white_noise\<close>, \<open>play_audio\<close>, \<open>save_wav\<close> and
  \<open>plot_signal_and_spectrum\<close>.

  Conventions of the embedding.
  \<^item> A finite floating-point number is the real number it denotes. Every floating-point
    operation of the program is the exact operation followed by rounding to the nearest
    representable number, ties to even (\<open>float32_round\<close> for NumPy's float32,
    \<open>float64_round\<close> for Python floats and NumPy's float64).
  \<^item> The elements of an audio buffer are finite. The duration is a Python float and may
    be infinite or NaN (\<open>pyfloat\<close>); the amplitude is taken finite. Signed zeros are
    not distinguished.
  \<^item> A one-dimensional NumPy array is a list of its elements; an \<open>int16\<close> element is a
    \<open>16 word\<close>, read as a signed number by \<open>sint\<close>.
  \<^item> A raised exception is the \<open>Inl\<close> branch of a sum.
  \<^item> The calls that reach outside the process (\<open>scipy.io.wavfile.write\<close>,
    \<open>sounddevice.play\<close>, \<open>matplotlib.pyplot\<close>) and the numerical kernel of
    \<open>np.fft.rfft\<close> are parameters of the model: their code is not part of the program.
    Printing to the terminal is left out.
\<close>

subsection \<open>Exceptions\<close>

datatype py_error =
  ValueError | ZeroDivisionError | OverflowError | MemoryError | TypeError | LibraryError string

subsection \<open>Floating-point rounding\<close>

text \<open>Rounding a real number to an integer, a tie going to the even neighbour.\<close>

definition round_half_even :: "real \<Rightarrow> int" where
  "round_half_even x =
     (let f = \<lfloor>x\<rfloor> in
      if x - of_int f < 1 / 2 then f
      else if 1 / 2 < x - of_int f then f + 1
      else if even f then f else f + 1)"

text \<open>The exponent \<open>e\<close> of a positive number \<open>x\<close>: \<open>2 ^ e \<le> x < 2 ^ (e + 1)\<close>.\<close>

function binary_exponent :: "real \<Rightarrow> int" where
  "binary_exponent x =
     (if 2 \<le> x then binary_exponent (x / 2) + 1
      else if 0 < x \<and> x < 1 then binary_exponent (2 * x) - 1
      else 0)"
  by pat_completeness auto
termination
proof (relation "measure (\<lambda>x. nat \<bar>\<lfloor>log 2 x\<rfloor>\<bar>)")
  show "wf (measure (\<lambda>x. nat \<bar>\<lfloor>log 2 x\<rfloor>\<bar>))" by simp
next
  fix x :: real
  assume x: "2 \<le> x"
  then have "log 2 (x / 2) = log 2 x - 1"
    by (simp add: log_divide)
  moreover have "1 \<le> log 2 x" using x by (simp add: le_log_iff)
  ultimately have f: "\<lfloor>log 2 (x / 2)\<rfloor> = \<lfloor>log 2 x\<rfloor> - 1" and g: "1 \<le> \<lfloor>log 2 x\<rfloor>"
    by (simp_all add: le_floor_iff)
  show "(x / 2, x) \<in> measure (\<lambda>x. nat \<bar>\<lfloor>log 2 x\<rfloor>\<bar>)"
    unfolding in_measure f using g by linarith
next
  fix x :: real
  assume "\<not> 2 \<le> x" and x: "0 < x \<and> x < 1"
  then have "log 2 (2 * x) = 1 + log 2 x"
    by (simp add: log_mult)
  moreover have "log 2 x < 0" using x by simp
  ultimately have f: "\<lfloor>log 2 (2 * x)\<rfloor> = \<lfloor>log 2 x\<rfloor> + 1" and g: "\<lfloor>log 2 x\<rfloor> < 0"
    by (simp_all add: floor_less_iff)
  show "(2 * x, x) \<in> measure (\<lambda>x. nat \<bar>\<lfloor>log 2 x\<rfloor>\<bar>)"
    unfolding in_measure f using g by linarith
qed

declare binary_exponent.simps [simp del]

text \<open>
  Rounding to the binary format with \<open>p\<close> significant bits and least normal exponent
  \<open>emin\<close>: the result is the multiple of the unit in the last place nearest to \<open>x\<close>.
  Below \<open>2 ^ emin\<close> the unit stays that of the least normal exponent (subnormal
  numbers). The exponent is not bounded above here: a result beyond the largest finite
  number of the format is infinite in the program and is treated where it matters.
\<close>

definition round_binary :: "nat \<Rightarrow> int \<Rightarrow> real \<Rightarrow> real" where
  "round_binary p emin x =
     (if x = 0 then 0
      else let e = max (binary_exponent \<bar>x\<bar>) emin;
               ulp = 2 powi (e - (int p - 1))
           in of_int (round_half_even (x / ulp)) * ulp)"

definition float32_round :: "real \<Rightarrow> real" where
  "float32_round = round_binary 24 (- 126)"

definition float64_round :: "real \<Rightarrow> real" where
  "float64_round = round_binary 53 (- 1022)"

text \<open>
  A real number rounds to an infinite double when its magnitude reaches the midpoint
  between the largest finite double and \<open>2 ^ 1024\<close>.
\<close>

definition float64_overflow :: "real \<Rightarrow> bool" where
  "float64_overflow x \<longleftrightarrow> (2 - 2 powi (- 53)) * 2 powi 1023 \<le> \<bar>x\<bar>"

subsection \<open>Python floats and conversions\<close>

datatype pyfloat = Finite real | PosInf | NegInf | NaN

text \<open>The test \<open>x > 0\<close> on a Python float.\<close>

fun float_gt_zero :: "pyfloat \<Rightarrow> bool" where
  "float_gt_zero (Finite r) = (0 < r)"
| "float_gt_zero PosInf = True"
| "float_gt_zero NegInf = False"
| "float_gt_zero NaN = False"

text \<open>
  The conversion of a Python integer to a float, as in \<open>x * k\<close> and \<open>x / k\<close> with a
  float \<open>x\<close>: it raises \<open>OverflowError\<close> when the integer is too large.
\<close>

definition float_of_int :: "int \<Rightarrow> py_error + real" where
  "float_of_int k =
     (if float64_overflow (of_int k) then Inl OverflowError
      else Inr (float64_round (of_int k)))"

text \<open>The product of a Python float and a finite float; an overflow gives an infinity.\<close>

fun float_mul :: "pyfloat \<Rightarrow> real \<Rightarrow> pyfloat" where
  "float_mul (Finite d) s =
     (if float64_overflow (d * s) then (if 0 < d * s then PosInf else NegInf)
      else Finite (float64_round (d * s)))"
| "float_mul PosInf s = (if 0 < s then PosInf else if s < 0 then NegInf else NaN)"
| "float_mul NegInf s = (if 0 < s then NegInf else if s < 0 then PosInf else NaN)"
| "float_mul NaN s = NaN"

text \<open>\<open>x * k\<close> for a float \<open>x\<close> and an integer \<open>k\<close>.\<close>

definition float_times_int :: "pyfloat \<Rightarrow> int \<Rightarrow> py_error + pyfloat" where
  "float_times_int x k =
     (case float_of_int k of Inl e \<Rightarrow> Inl e | Inr s \<Rightarrow> Inr (float_mul x s))"

text \<open>
  Python's \<open>int(x)\<close> on a float and NumPy's \<open>astype\<close> from a float to an integer type
  both drop the fractional part, that is, they round towards zero. \<open>int\<close> raises
  \<open>OverflowError\<close> on an infinity and \<open>ValueError\<close> on NaN.
\<close>

definition trunc_toward_zero :: "real \<Rightarrow> int" where
  "trunc_toward_zero x = (if 0 \<le> x then \<lfloor>x\<rfloor> else \<lceil>x\<rceil>)"

fun py_int :: "pyfloat \<Rightarrow> py_error + int" where
  "py_int (Finite r) = Inr (trunc_toward_zero r)"
| "py_int PosInf = Inl OverflowError"
| "py_int NegInf = Inl OverflowError"
| "py_int NaN = Inl ValueError"

text \<open>
  \<open>1.0 / k\<close> for an integer \<open>k\<close>: the integer is converted, a zero divisor raises
  \<open>ZeroDivisionError\<close>. The converted divisor is an integer, so the quotient is at most
  1 in magnitude and finite.
\<close>

definition one_over_int :: "int \<Rightarrow> py_error + real" where
  "one_over_int k =
     (case float_of_int k of
        Inl e \<Rightarrow> Inl e
      | Inr s \<Rightarrow> if s = 0 then Inl ZeroDivisionError else Inr (float64_round (1 / s)))"

subsection \<open>Quantization in \<open>save_wav\<close>\<close>

text \<open>
  \<^verbatim>\<open>max_int16 = np.iinfo(np.int16).max\<close>
  \<^verbatim>\<open>wav_int16 = (buffer * max_int16).clip(-max_int16, max_int16).astype(np.int16)\<close>
  The buffer is a float32 array, so the product is a float32 product: the exact product
  rounded to float32. A product beyond the float32 range is an infinity in the program;
  the clip sends it to the same bound as the large real number of the model.
\<close>

definition max_int16 :: int where
  "max_int16 = 32767"

text \<open>\<open>a.clip(a_min, a_max)\<close>, elementwise \<open>minimum(a_max, maximum(a, a_min))\<close>.\<close>

definition clip :: "real \<Rightarrow> real \<Rightarrow> real \<Rightarrow> real" where
  "clip a_min a_max x = min (max x a_min) a_max"

text \<open>
  \<open>astype(np.int16)\<close> on one element: truncation, then the low 16 bits of the integer
  (what the cast yields on the usual platforms when the integer does not fit).
\<close>

definition astype_int16 :: "real \<Rightarrow> 16 word" where
  "astype_int16 x = word_of_int (trunc_toward_zero x)"

definition wav_int16 :: "real list \<Rightarrow> 16 word list" where
  "wav_int16 buffer =
     map astype_int16
       (map (clip (- of_int max_int16) (of_int max_int16))
         (map (\<lambda>x. float32_round (x * of_int max_int16)) buffer))"

text \<open>
  The quantizer as the specification words it, for comparison with \<open>wav_int16\<close>:
  \<open>q[i] = clamp(round(buffer[i] * 32767), -32768, 32767)\<close>.
  HOL's \<open>round\<close> sends a tie upwards and Python's to the even neighbour; the comparison
  below uses no tie.
\<close>

definition spec_quantize :: "real \<Rightarrow> int" where
  "spec_quantize b = max (- 32768) (min 32767 (round (b * 32767)))"

subsection \<open>\<open>generate_white_noise\<close>\<close>

text \<open>
  \<open>np.random.normal(loc=0.0, scale=1.0, size=n)\<close>: the variates are supplied by the
  parameter \<open>draw\<close> (the \<open>i\<close>-th value drawn). A negative size raises \<open>ValueError\<close>, and
  so does a size that is no valid array dimension (\<open>2 ^ 63\<close> or more). Below that,
  whether NumPy can create the array depends on the machine: \<open>refuse n\<close> is the
  exception it raises for a size it cannot create, if any. The size 0 gives the empty
  array.
\<close>

definition random_normal ::
  "(nat \<Rightarrow> real) \<Rightarrow> (int \<Rightarrow> py_error option) \<Rightarrow> int \<Rightarrow> py_error + real list" where
  "random_normal draw refuse n =
     (if n < 0 then Inl ValueError
      else if 2 ^ 63 \<le> n then Inl ValueError
      else case refuse n of
             Some e \<Rightarrow> Inl e
           | None \<Rightarrow> Inr (map draw [0..<nat n]))"

text \<open>\<^verbatim>\<open>n_samples = int(duration_sec * sample_rate)\<close>\<close>

definition n_samples :: "pyfloat \<Rightarrow> int \<Rightarrow> py_error + int" where
  "n_samples duration_sec sample_rate =
     (case float_times_int duration_sec sample_rate of
        Inl e \<Rightarrow> Inl e
      | Inr product \<Rightarrow> py_int product)"

text \<open>
  \<^verbatim>\<open>noise = np.random.normal(loc=0.0, scale=1.0, size=n_samples).astype(np.float32)\<close>
  \<^verbatim>\<open>noise *= amplitude\<close>
  \<^verbatim>\<open>return noise\<close>
  The function has no other statement: the parameters are not checked. The in-place
  product is a float32 product with the amplitude converted to float32. A sample beyond
  the float32 range is an infinity in the program and a large real number here; the
  statements about this function concern its errors and the length of its result.
\<close>

definition generate_white_noise ::
  "(nat \<Rightarrow> real) \<Rightarrow> (int \<Rightarrow> py_error option) \<Rightarrow> pyfloat \<Rightarrow> int \<Rightarrow> real
     \<Rightarrow> py_error + real list" where
  "generate_white_noise draw refuse duration_sec sample_rate amplitude =
     (case n_samples duration_sec sample_rate of
        Inl e \<Rightarrow> Inl e
      | Inr n \<Rightarrow>
          (case random_normal draw refuse n of
             Inl e \<Rightarrow> Inl e
           | Inr normal \<Rightarrow>
               (let noise = map float32_round normal
                in Inr (map (\<lambda>x. float32_round (x * float32_round amplitude)) noise))))"

subsection \<open>Arrays in memory and calls into the libraries\<close>

text \<open>
  The three consumers receive the buffer by reference, so they run on a store of arrays:
  \<open>arrays\<close> maps an address to the array stored there and \<open>lim\<close> is the next
  unused address. A new array is always placed at \<open>lim\<close>. \<open>Nonfinite_array n\<close> stands
  for a float array of length \<open>n\<close> that holds an infinity or NaN; its elements are not
  represented.

  A call that leaves the process is recorded in \<open>trace\<close> with the values it was given.
  Whether the call raises is decided by the parameter \<open>lib\<close>, from the calls made so far
  and the present one. The libraries receive the contents of their array arguments:
  that they do not write to them is taken from their documentation.
  The calls to \<open>matplotlib.pyplot\<close> of one invocation are recorded as one event that
  holds the two curves drawn, \<open>(t, buffer)\<close> and \<open>(freqs, magnitude)\<close>.
\<close>

datatype ndarray =
  Float_array "real list"
| Int16_array "16 word list"
| Complex_array "complex list"
| Nonfinite_array nat

datatype event =
  Wavfile_write string int "16 word list"
| Sd_play "real list" int bool
| Pyplot_show ndarray "real list" ndarray "real list"

record pystate =
  arrays :: "nat \<Rightarrow> ndarray option"
  lim :: nat
  trace :: "event list"

type_synonym library = "event list \<Rightarrow> event \<Rightarrow> py_error option"

definition alloc :: "ndarray \<Rightarrow> pystate \<Rightarrow> nat \<times> pystate" where
  "alloc a s = (lim s, s\<lparr>arrays := (arrays s)(lim s \<mapsto> a), lim := lim s + 1\<rparr>)"

definition library_call :: "library \<Rightarrow> event \<Rightarrow> pystate \<Rightarrow> py_error option \<times> pystate" where
  "library_call lib ev s = (lib (trace s) ev, s\<lparr>trace := trace s @ [ev]\<rparr>)"

subsection \<open>The NumPy functions used for the spectrum\<close>

text \<open>
  \<^verbatim>\<open>np.arange(n) / sample_rate\<close>: the quotient of an int64 array and a Python integer.
  NumPy 2 takes the integer as an int64 and raises \<open>OverflowError\<close> when it does not
  fit (NumPy 1 converts such an integer otherwise; no statement below is about a rate
  outside the 64-bit range). Both operands are then converted to float64 and divided;
  a zero divisor raises nothing and fills the array with infinities and NaN.
\<close>

definition arange_over :: "nat \<Rightarrow> int \<Rightarrow> py_error + ndarray" where
  "arange_over n sample_rate =
     (if sample_rate < - (2 ^ 63) \<or> 2 ^ 63 \<le> sample_rate then Inl OverflowError
      else if sample_rate = 0 then
        Inr (if n = 0 then Float_array [] else Nonfinite_array n)
      else
        Inr (Float_array
          (map (\<lambda>k. float64_round (float64_round (real k) / float64_round (of_int sample_rate)))
            [0..<n])))"

text \<open>
  \<open>np.fft.rfft(a)\<close> returns the coefficients \<open>0, \<dots>, n div 2\<close> of the discrete Fourier
  transform of the real sequence \<open>a\<close> of length \<open>n\<close>, computed in floating point; an
  empty input raises \<open>ValueError\<close>. The value NumPy computes for the \<open>k\<close>-th coefficient
  is the parameter \<open>fft_coefficient a k\<close>.
\<close>

definition rfft :: "(real list \<Rightarrow> nat \<Rightarrow> complex) \<Rightarrow> real list \<Rightarrow> py_error + complex list" where
  "rfft fft_coefficient a =
     (let n = length a in
      if n = 0 then Inl ValueError
      else Inr (map (fft_coefficient a) [0..<n div 2 + 1]))"

text \<open>The transform that \<open>np.fft.rfft\<close> is documented to compute, in exact arithmetic.\<close>

definition dft_coefficient :: "real list \<Rightarrow> nat \<Rightarrow> complex" where
  "dft_coefficient a k =
     (\<Sum>m<length a. of_real (a ! m) * cis (- 2 * pi * real m * real k / real (length a)))"

text \<open>
  \<open>np.fft.rfftfreq(n, d)\<close>: \<^verbatim>\<open>val = 1.0 / (n * d)\<close>, then
  \<^verbatim>\<open>arange(0, n // 2 + 1, dtype=int) * val\<close>. The first line is Python float arithmetic:
  a product that overflows is an infinity, whose reciprocal is 0; a zero product raises
  \<open>ZeroDivisionError\<close>; a reciprocal that overflows is an infinity, and so may be a
  product of the last line.
\<close>

definition rfftfreq :: "nat \<Rightarrow> real \<Rightarrow> py_error + ndarray" where
  "rfftfreq n d =
     (case float_of_int (int n) of
        Inl e \<Rightarrow> Inl e
      | Inr nf \<Rightarrow>
          if float64_overflow (nf * d) then Inr (Float_array (replicate (n div 2 + 1) 0))
          else
            (let product = float64_round (nf * d) in
             if product = 0 then Inl ZeroDivisionError
             else if float64_overflow (1 / product) then Inr (Nonfinite_array (n div 2 + 1))
             else
               (let val = float64_round (1 / product) in
                if list_ex (\<lambda>k. float64_overflow (float64_round (real k) * val))
                     [0..<n div 2 + 1]
                then Inr (Nonfinite_array (n div 2 + 1))
                else Inr (Float_array
                       (map (\<lambda>k. float64_round (float64_round (real k) * val))
                         [0..<n div 2 + 1])))))"

subsection \<open>The three consumers\<close>

text \<open>
  The result of a consumer is the exception that left it, if any, and the new state.
  The menu only passes the array made by \<open>generate_white_noise\<close>; an address that holds no
  float array is reported as \<open>TypeError\<close>.

  \<^verbatim>\<open>sd.play(buffer, samplerate=sample_rate, blocking=True)\<close>
\<close>

definition play_audio :: "library \<Rightarrow> nat \<Rightarrow> int \<Rightarrow> pystate \<Rightarrow> py_error option \<times> pystate" where
  "play_audio lib buffer sample_rate s =
     (case arrays s buffer of
        Some (Float_array xs) \<Rightarrow> library_call lib (Sd_play xs sample_rate True) s
      | _ \<Rightarrow> (Some TypeError, s))"

text \<open>
  \<open>save_wav\<close>: the product, the clipped array and the converted array are three new arrays;
  the last one goes to \<^verbatim>\<open>wavfile.write(filename, sample_rate, wav_int16)\<close>.
\<close>

definition save_wav ::
  "library \<Rightarrow> nat \<Rightarrow> int \<Rightarrow> string \<Rightarrow> pystate \<Rightarrow> py_error option \<times> pystate" where
  "save_wav lib buffer sample_rate filename s =
     (case arrays s buffer of
        Some (Float_array xs) \<Rightarrow>
          (let scaled = map (\<lambda>x. float32_round (x * of_int max_int16)) xs;
               (p1, s1) = alloc (Float_array scaled) s;
               clipped = map (clip (- of_int max_int16) (of_int max_int16)) scaled;
               (p2, s2) = alloc (Float_array clipped) s1;
               samples = map astype_int16 clipped;
               (p3, s3) = alloc (Int16_array samples) s2
           in library_call lib (Wavfile_write filename sample_rate samples) s3)
      | _ \<Rightarrow> (Some TypeError, s))"

text \<open>
  \<^verbatim>\<open>t = np.arange(buffer.shape[0]) / sample_rate\<close>
  \<^verbatim>\<open>fft = np.fft.rfft(buffer)\<close>
  \<^verbatim>\<open>freqs = np.fft.rfftfreq(buffer.shape[0], d=1.0 / sample_rate)\<close>
  \<^verbatim>\<open>magnitude = np.abs(fft)\<close>
  and then the plot. The modulus NumPy computes of a complex number is the parameter
  \<open>absolute\<close>. The function returns nothing; the curves it computed are the ones in
  the recorded event.
\<close>

definition plot_signal_and_spectrum ::
  "library \<Rightarrow> (real list \<Rightarrow> nat \<Rightarrow> complex) \<Rightarrow> (complex \<Rightarrow> real) \<Rightarrow> nat \<Rightarrow> int \<Rightarrow> pystate
     \<Rightarrow> py_error option \<times> pystate" where
  "plot_signal_and_spectrum lib fft_coefficient absolute buffer sample_rate s =
     (case arrays s buffer of
        Some (Float_array xs) \<Rightarrow>
          (case arange_over (length xs) sample_rate of
             Inl e \<Rightarrow> (Some e, s)
           | Inr t \<Rightarrow>
               (let (p1, s1) = alloc t s
                in case rfft fft_coefficient xs of
                     Inl e \<Rightarrow> (Some e, s1)
                   | Inr fft \<Rightarrow>
                       (let (p2, s2) = alloc (Complex_array fft) s1
                        in case one_over_int sample_rate of
                             Inl e \<Rightarrow> (Some e, s2)
                           | Inr d \<Rightarrow>
                               (case rfftfreq (length xs) d of
                                  Inl e \<Rightarrow> (Some e, s2)
                                | Inr freqs \<Rightarrow>
                                    (let (p3, s3) = alloc freqs s2;
                                         magnitude = map absolute fft;
                                         (p4, s4) = alloc (Float_array magnitude) s3
                                     in library_call lib
                                          (Pyplot_show t xs freqs magnitude) s4)))))
      | _ \<Rightarrow> (Some TypeError, s))"

subsection \<open>Concrete inputs for the examples\<close>

text \<open>The double nearest to 0.7, and the double \<open>2 ^ 1000\<close>.\<close>

definition double_0_7 :: real where
  "double_0_7 = 3152519739159347 / 2 ^ 52"

definition double_2_1000 :: real where
  "double_2_1000 = 2 ^ 1000"

definition alternating_draw :: "nat \<Rightarrow> real" where
  "alternating_draw i = (if even i then 1 else - 1)"

text \<open>A machine that can create arrays of up to \<open>2 ^ 30\<close> elements.\<close>

definition refuse_large :: "int \<Rightarrow> py_error option" where
  "refuse_large n = (if 2 ^ 30 < n then Some MemoryError else None)"

definition empty_state :: pystate where
  "empty_state = \<lparr>arrays = (\<lambda>_. None), lim = 0, trace = []\<rparr>"

definition no_failure :: library where
  "no_failure tr ev = None"

definition demo_state :: pystate where
  "demo_state = snd (alloc (Float_array [1 / 2, - 2]) empty_state)"

section \<open>Properties of the rounding\<close>

lemma binary_exponent_bounds:
  "0 < x \<Longrightarrow> 2 powi binary_exponent x \<le> x \<and> x < 2 powi (binary_exponent x + 1)"
proof (induction x rule: binary_exponent.induct)
  case (1 x)
  show ?case
  proof (cases "2 \<le> x")
    case True
    then have e: "binary_exponent x = binary_exponent (x / 2) + 1"
      by (subst binary_exponent.simps) simp
    have "2 powi binary_exponent (x / 2) \<le> x / 2 \<and> x / 2 < 2 powi (binary_exponent (x / 2) + 1)"
      using 1(1) [OF True] True by simp
    then show ?thesis
      unfolding e by (simp add: power_int_add)
  next
    case False
    show ?thesis
    proof (cases "x < 1")
      case True
      then have e: "binary_exponent x = binary_exponent (2 * x) - 1"
        using False 1(3) by (subst binary_exponent.simps) simp
      have "2 powi binary_exponent (2 * x) \<le> 2 * x \<and> 2 * x < 2 powi (binary_exponent (2 * x) + 1)"
        using 1(2) [OF False] True 1(3) by simp
      then show ?thesis
        unfolding e by (simp add: power_int_diff power_int_add)
    next
      case F2: False
      then have e: "binary_exponent x = 0"
        using False by (subst binary_exponent.simps) simp
      show ?thesis unfolding e using False F2 by simp
    qed
  qed
qed

lemma binary_exponent_unique:
  assumes "0 < x" and "2 powi k \<le> x" and "x < 2 powi (k + 1)"
  shows "binary_exponent x = k"
proof -
  let ?e = "binary_exponent x"
  have b: "2 powi ?e \<le> x" "x < 2 powi (?e + 1)"
    using binary_exponent_bounds [OF assms(1)] by simp_all
  have lt: "\<And>a b :: int. (2::real) powi a < 2 powi b \<Longrightarrow> a < b"
  proof (rule ccontr)
    fix a b :: int
    assume h: "(2::real) powi a < 2 powi b" and "\<not> a < b"
    then have "b \<le> a" by simp
    then have "(2::real) powi b \<le> 2 powi a" by (intro power_int_increasing) simp_all
    with h show False by simp
  qed
  have "(2::real) powi k < 2 powi (?e + 1)" using assms(2) b(2) by linarith
  then have "k < ?e + 1" by (rule lt)
  moreover have "(2::real) powi ?e < 2 powi (k + 1)" using assms(3) b(1) by linarith
  then have "?e < k + 1" by (rule lt)
  ultimately show ?thesis by simp
qed


lemma round_half_even_of_int: "round_half_even (of_int n) = n"
  by (simp add: round_half_even_def)

lemma round_half_even_cases:
  "round_half_even x = \<lfloor>x\<rfloor> \<or> round_half_even x = \<lfloor>x\<rfloor> + 1"
  by (simp add: round_half_even_def Let_def)

lemma round_half_even_mono:
  assumes "x \<le> y"
  shows "round_half_even x \<le> round_half_even y"
proof (cases "\<lfloor>x\<rfloor> = \<lfloor>y\<rfloor>")
  case True
  have "x - of_int \<lfloor>y\<rfloor> \<le> y - of_int \<lfloor>y\<rfloor>" using assms by simp
  then show ?thesis
    unfolding round_half_even_def Let_def True by auto
next
  case False
  have "\<lfloor>x\<rfloor> \<le> \<lfloor>y\<rfloor>" using assms by (rule floor_mono)
  with False have "\<lfloor>x\<rfloor> + 1 \<le> \<lfloor>y\<rfloor>" by simp
  moreover have "round_half_even x \<le> \<lfloor>x\<rfloor> + 1"
    using round_half_even_cases [of x] by auto
  moreover have "\<lfloor>y\<rfloor> \<le> round_half_even y"
    using round_half_even_cases [of y] by auto
  ultimately show ?thesis by linarith
qed

lemma round_half_even_minus: "round_half_even (- x) = - round_half_even x"
proof (cases "x = of_int \<lfloor>x\<rfloor>")
  case True
  then obtain n where "x = of_int n" ..
  then show ?thesis
    using round_half_even_of_int [of "- n"] round_half_even_of_int [of n] by simp
next
  case False
  then have c: "\<lceil>x\<rceil> = \<lfloor>x\<rfloor> + 1"
    by (metis ceiling_altdef)
  have f: "\<lfloor>- x\<rfloor> = - \<lfloor>x\<rfloor> - 1"
    using c by (simp add: ceiling_def)
  have lo: "of_int \<lfloor>x\<rfloor> < x" using False by (metis floor_less_cancel less_eq_real_def linorder_not_le of_int_floor_le of_int_floor_cancel)
  show ?thesis
    unfolding round_half_even_def Let_def f using lo
    by (auto simp add: algebra_simps)
qed

lemma round_binary_minus: "round_binary p emin (- x) = - round_binary p emin x"
  by (simp add: round_binary_def Let_def round_half_even_minus)

lemma round_binary_nonneg: "0 \<le> x \<Longrightarrow> 0 \<le> round_binary p emin x"
proof -
  assume x: "0 \<le> x"
  have "\<And>u::real. 0 < u \<Longrightarrow> 0 \<le> round_half_even (x / u)"
    using round_half_even_mono [of 0] round_half_even_of_int [of 0] x by fastforce
  then show ?thesis
    by (simp add: round_binary_def Let_def)
qed

lemma round_binary_nonpos: "x \<le> 0 \<Longrightarrow> round_binary p emin x \<le> 0"
  using round_binary_nonneg [of "- x" p emin] by (simp add: round_binary_minus)

lemma binary_exponent_mono:
  assumes "0 < x" and "x \<le> y"
  shows "binary_exponent x \<le> binary_exponent y"
proof (rule ccontr)
  assume "\<not> binary_exponent x \<le> binary_exponent y"
  then have "binary_exponent y + 1 \<le> binary_exponent x" by simp
  then have "(2::real) powi (binary_exponent y + 1) \<le> 2 powi binary_exponent x"
    by (intro power_int_increasing) simp_all
  moreover have "y < 2 powi (binary_exponent y + 1)"
    using binary_exponent_bounds [of y] assms by simp
  moreover have "2 powi binary_exponent x \<le> x"
    using binary_exponent_bounds [of x] assms by simp
  ultimately show False using assms(2) by linarith
qed


lemma round_to_grid_le:
  assumes "0 < u" and "x \<le> of_int n * u"
  shows "of_int (round_half_even (x / u)) * u \<le> of_int n * u"
proof -
  have "x / u \<le> of_int n" using assms by (simp add: pos_divide_le_eq)
  then have "round_half_even (x / u) \<le> n"
    using round_half_even_mono [of "x / u" "of_int n"] by (simp add: round_half_even_of_int)
  then show ?thesis using assms(1) by simp
qed

lemma round_to_grid_ge:
  assumes "0 < u" and "of_int n * u \<le> x"
  shows "of_int n * u \<le> of_int (round_half_even (x / u)) * u"
proof -
  have "of_int n \<le> x / u" using assms by (simp add: pos_le_divide_eq)
  then have "n \<le> round_half_even (x / u)"
    using round_half_even_mono [of "of_int n" "x / u"] by (simp add: round_half_even_of_int)
  then show ?thesis using assms(1) by simp
qed

lemma round_to_grid_mono:
  assumes "0 < u" and "x \<le> y"
  shows "of_int (round_half_even (x / u)) * u \<le> of_int (round_half_even (y / u)) * u"
proof -
  have "x / u \<le> y / u" using assms by (simp add: divide_right_mono)
  then have "round_half_even (x / u) \<le> round_half_even (y / u)"
    by (rule round_half_even_mono)
  then show ?thesis using assms(1) by simp
qed

lemma two_powi_split: "(2::real) powi (e + 1) = of_int (2 ^ p) * 2 powi (e - (int p - 1))"
proof -
  have "(2::real) powi (e + 1) = 2 powi (int p + (e - (int p - 1)))" by simp
  also have "\<dots> = 2 powi int p * 2 powi (e - (int p - 1))"
    by (rule power_int_add) simp
  finally show ?thesis by simp
qed

lemma two_powi_split': 
  assumes "0 < p"
  shows "(2::real) powi e = of_int (2 ^ (p - 1)) * 2 powi (e - (int p - 1))"
proof -
  have "(2::real) powi e = 2 powi (int (p - 1) + (e - (int p - 1)))"
    using assms by (simp add: of_nat_diff)
  also have "\<dots> = 2 powi int (p - 1) * 2 powi (e - (int p - 1))"
    by (rule power_int_add) simp
  finally show ?thesis by simp
qed

lemma round_binary_mono_pos:
  assumes p: "0 < p" and x: "0 < x" and xy: "x \<le> y"
  shows "round_binary p emin x \<le> round_binary p emin y"
proof -
  let ?ex = "max (binary_exponent x) emin" and ?ey = "max (binary_exponent y) emin"
  let ?ux = "2 powi (?ex - (int p - 1)) :: real" and ?uy = "2 powi (?ey - (int p - 1)) :: real"
  have y: "0 < y" using x xy by simp
  have rx: "round_binary p emin x = of_int (round_half_even (x / ?ux)) * ?ux"
    using x by (simp add: round_binary_def Let_def)
  have ry: "round_binary p emin y = of_int (round_half_even (y / ?uy)) * ?uy"
    using y by (simp add: round_binary_def Let_def)
  have ux: "0 < ?ux" and uy: "0 < ?uy" by simp_all
  have le: "?ex \<le> ?ey"
    using binary_exponent_mono [OF x xy] by simp
  show ?thesis
  proof (cases "?ex = ?ey")
    case True
    then show ?thesis
      unfolding rx ry using round_to_grid_mono [OF uy xy] by simp
  next
    case False
    with le have lt: "?ex + 1 \<le> ?ey" by simp
    then have ey: "?ey = binary_exponent y" by linarith
    have "x < 2 powi (binary_exponent x + 1)"
      using binary_exponent_bounds [OF x] by simp
    also have "\<dots> \<le> 2 powi (?ex + 1)"
      by (intro power_int_increasing) simp_all
    finally have "x \<le> of_int (2 ^ p) * ?ux"
      using two_powi_split [of ?ex p] by simp
    then have "round_binary p emin x \<le> of_int (2 ^ p) * ?ux"
      unfolding rx by (rule round_to_grid_le [OF ux])
    then have a: "round_binary p emin x \<le> 2 powi (?ex + 1)"
      using two_powi_split [of ?ex p] by simp
    have "2 powi ?ey \<le> y"
      using binary_exponent_bounds [OF y] ey by simp
    then have "of_int (2 ^ (p - 1)) * ?uy \<le> y"
      using two_powi_split' [OF p, of ?ey] by simp
    then have "of_int (2 ^ (p - 1)) * ?uy \<le> round_binary p emin y"
      unfolding ry by (rule round_to_grid_ge [OF uy])
    then have b: "2 powi ?ey \<le> round_binary p emin y"
      using two_powi_split' [OF p, of ?ey] by simp
    have "(2::real) powi (?ex + 1) \<le> 2 powi ?ey"
      using lt by (intro power_int_increasing) simp_all
    with a b show ?thesis by linarith
  qed
qed

lemma round_binary_mono:
  assumes "0 < p" and "x \<le> y"
  shows "round_binary p emin x \<le> round_binary p emin y"
proof -
  consider "0 < x" | "x \<le> 0" "0 \<le> y" | "y < 0" by linarith
  then show ?thesis
  proof cases
    case 1
    then show ?thesis using assms by (intro round_binary_mono_pos)
  next
    case 2
    then show ?thesis
      using round_binary_nonpos [of x p emin] round_binary_nonneg [of y p emin] by linarith
  next
    case 3
    then have "round_binary p emin (- y) \<le> round_binary p emin (- x)"
      using assms by (intro round_binary_mono_pos) simp_all
    then show ?thesis by (simp add: round_binary_minus)
  qed
qed

lemma round_binary_exact:
  assumes m: "\<bar>m\<bar> < 2 ^ p" and j: "emin - (int p - 1) \<le> j"
  shows "round_binary p emin (of_int m * 2 powi j) = of_int m * 2 powi j"
proof (cases "m = 0")
  case True
  then show ?thesis by (simp add: round_binary_def)
next
  case False
  let ?x = "of_int m * 2 powi j :: real"
  let ?e = "max (binary_exponent \<bar>?x\<bar>) emin"
  let ?u = "2 powi (?e - (int p - 1)) :: real"
  have x0: "?x \<noteq> 0" using False by simp
  then have ax: "0 < \<bar>?x\<bar>" by simp
  have "\<bar>?x\<bar> = of_int \<bar>m\<bar> * 2 powi j" by (simp add: abs_mult)
  also have "\<dots> < of_int (2 ^ p) * 2 powi j"
    using m by (intro mult_strict_right_mono) (simp_all del: of_int_power)
  also have "\<dots> = 2 powi (int p + j)"
    by (simp add: power_int_add)
  finally have up: "\<bar>?x\<bar> < 2 powi (int p + j)" .
  have "2 powi binary_exponent \<bar>?x\<bar> \<le> \<bar>?x\<bar>"
    using binary_exponent_bounds [OF ax] by simp
  with up have "(2::real) powi binary_exponent \<bar>?x\<bar> < 2 powi (int p + j)" by linarith
  then have "binary_exponent \<bar>?x\<bar> < int p + j"
    by (metis linorder_not_le one_le_numeral power_int_increasing)
  with j have d: "0 \<le> j - (?e - (int p - 1))" by simp
  have "2 powi j = 2 powi ((j - (?e - (int p - 1))) + (?e - (int p - 1)))"
    by simp
  also have "\<dots> = 2 powi (j - (?e - (int p - 1))) * ?u"
    by (rule power_int_add) simp
  also have "\<dots> = of_int (2 ^ nat (j - (?e - (int p - 1)))) * ?u"
    using d by (simp add: power_int_def)
  finally have pj: "2 powi j = of_int (2 ^ nat (j - (?e - (int p - 1)))) * ?u" .
  have "?x = of_int (m * 2 ^ nat (j - (?e - (int p - 1)))) * ?u"
    by (subst pj) simp
  then have "?x / ?u = of_int (m * 2 ^ nat (j - (?e - (int p - 1))))"
    by (simp add: nonzero_divide_eq_eq)
  then have q: "round_half_even (?x / ?u) = m * 2 ^ nat (j - (?e - (int p - 1)))"
    by (simp only: round_half_even_of_int)
  have "round_binary p emin ?x = of_int (round_half_even (?x / ?u)) * ?u"
    using x0 by (simp add: round_binary_def Let_def)
  also have "\<dots> = of_int (m * 2 ^ nat (j - (?e - (int p - 1)))) * ?u"
    by (simp only: q)
  also have "\<dots> = ?x"
    by (subst (2) pj) simp
  finally show ?thesis .
qed

section \<open>Properties of the quantizer\<close>

lemma float32_round_mono: "x \<le> y \<Longrightarrow> float32_round x \<le> float32_round y"
  unfolding float32_round_def by (rule round_binary_mono) simp_all

lemma float64_round_mono: "x \<le> y \<Longrightarrow> float64_round x \<le> float64_round y"
  unfolding float64_round_def by (rule round_binary_mono) simp_all

lemma float64_round_nonneg: "0 \<le> x \<Longrightarrow> 0 \<le> float64_round x"
  unfolding float64_round_def by (rule round_binary_nonneg)

lemma float64_round_nonpos: "x \<le> 0 \<Longrightarrow> float64_round x \<le> 0"
  unfolding float64_round_def by (rule round_binary_nonpos)

lemma float32_round_of_int:
  assumes "\<bar>m\<bar> < 2 ^ 24"
  shows "float32_round (of_int m) = of_int m"
  using round_binary_exact [of m 24 "- 126" 0] assms by (simp add: float32_round_def)

lemma float64_round_of_int:
  assumes "\<bar>m\<bar> < 2 ^ 53"
  shows "float64_round (of_int m) = of_int m"
  using round_binary_exact [of m 53 "- 1022" 0] assms by (simp add: float64_round_def)

lemma float64_round_two_powi:
  assumes "- 1074 \<le> j"
  shows "float64_round (2 powi j) = 2 powi j"
  using round_binary_exact [of 1 53 "- 1022" j] assms by (simp add: float64_round_def)

lemma trunc_toward_zero_bounds:
  assumes "- real_of_int m \<le> x" and "x \<le> real_of_int m"
  shows "- m \<le> trunc_toward_zero x \<and> trunc_toward_zero x \<le> m"
proof (cases "0 \<le> x")
  case True
  then have t: "trunc_toward_zero x = \<lfloor>x\<rfloor>"
    by (simp add: trunc_toward_zero_def)
  have lo: "0 \<le> \<lfloor>x\<rfloor>" using True by simp
  have hi: "\<lfloor>x\<rfloor> \<le> m" using assms(2) by (simp add: floor_le_iff)
  show ?thesis using t lo hi by linarith
next
  case False
  then have t: "trunc_toward_zero x = \<lceil>x\<rceil>"
    by (simp add: trunc_toward_zero_def)
  have hi: "\<lceil>x\<rceil> \<le> 0" using False by (simp add: ceiling_le_iff)
  have lo: "- m \<le> \<lceil>x\<rceil>" using assms(1) by (simp add: le_ceiling_iff)
  show ?thesis using t lo hi by linarith
qed

lemma clip_bounds:
  "a_min \<le> a_max \<Longrightarrow> a_min \<le> clip a_min a_max x \<and> clip a_min a_max x \<le> a_max"
  by (simp add: clip_def)

lemma sint_int16_in_range:
  assumes "- 32768 \<le> k" and "k < 32768"
  shows "sint (word_of_int k :: 16 word) = k"
  using assms by (simp add: signed_of_int signed_take_bit_int_eq_self)

lemma trunc_clip_range:
  "- 32767 \<le> trunc_toward_zero (clip (- 32767) 32767 y)
     \<and> trunc_toward_zero (clip (- 32767) 32767 y) \<le> 32767"
proof -
  have "- real_of_int 32767 \<le> clip (- 32767) 32767 y
      \<and> clip (- 32767) 32767 y \<le> real_of_int 32767"
    using clip_bounds [of "- 32767" 32767 y] by simp
  then show ?thesis
    using trunc_toward_zero_bounds [of 32767 "clip (- 32767) 32767 y"] by simp
qed

lemma sint_astype_int16_clip:
  "sint (astype_int16 (clip (- 32767) 32767 y)) = trunc_toward_zero (clip (- 32767) 32767 y)"
  unfolding astype_int16_def
  using trunc_clip_range [of y] by (intro sint_int16_in_range) simp_all

lemma wav_int16_nth:
  "i < length buffer \<Longrightarrow>
     wav_int16 buffer ! i =
       astype_int16 (clip (- 32767) 32767 (float32_round (buffer ! i * 32767)))"
  by (simp add: wav_int16_def max_int16_def)

lemma length_wav_int16: "length (wav_int16 buffer) = length buffer"
  by (simp add: wav_int16_def)

lemma float32_products:
  "float32_round (32767 / 32768) = 32767 / 32768"
  "float32_round (- 65534) = - 65534"
  "float32_round 98301 = 98301"
  "float32_round (32767 / 2) = 32767 / 2"
  "float32_round (1073741823 / 65536) = 16384"
  by code_simp+

text \<open>
  Claim C10. For every input buffer, every sample the quantizer produces lies in the
  symmetric range from -32767 to 32767; the value -32768 is never produced, because the
  lower bound of the clip is -32767.
\<close>

theorem quantizer_symmetric_range:
  "i < length buffer \<Longrightarrow>
     - 32767 \<le> sint (wav_int16 buffer ! i) \<and> sint (wav_int16 buffer ! i) \<le> 32767
     \<and> sint (wav_int16 buffer ! i) \<noteq> - 32768"
  using trunc_clip_range [of "float32_round (buffer ! i * 32767)"]
  by (simp add: wav_int16_nth sint_astype_int16_clip)

theorem quantizer_symmetric_range_witness:
  "(0::nat) < length [- 2 :: real]
     \<and> - 32767 \<le> sint (wav_int16 [- 2] ! 0) \<and> sint (wav_int16 [- 2] ! 0) \<le> 32767
     \<and> sint (wav_int16 [- 2] ! 0) \<noteq> - 32768"
  using quantizer_symmetric_range [of 0 "[- 2]"] by simp

lemma wav_int16_examples:
  "map sint (wav_int16 [1 / 32768, - 2, 3, 1 / 2, 32769 / 65536]) = [0, - 32767, 32767, 16383, 16384]"
  by (simp add: wav_int16_def astype_int16_def clip_def max_int16_def trunc_toward_zero_def
      float32_products)

text \<open>
  Claim C1, as the specification states it, fails. The buffer \<open>[1 / 32768, - 2]\<close> has the
  scaled values \<open>32767 / 32768\<close> and \<open>- 65534\<close>, both float32 numbers. The code drops
  the fraction of the first (giving 0, where rounding to nearest gives 1) and clips the
  second at \<open>- 32767\<close> (where the stated lower bound gives \<open>- 32768\<close>).
\<close>

theorem quantizer_round_clamp_counterexample:
  "sint (wav_int16 [1 / 32768, - 2] ! 0) \<noteq> spec_quantize ([1 / 32768, - 2] ! 0)
   \<and> sint (wav_int16 [1 / 32768, - 2] ! 1) \<noteq> spec_quantize ([1 / 32768, - 2] ! 1)"
  by (simp add: wav_int16_def astype_int16_def clip_def max_int16_def trunc_toward_zero_def
      spec_quantize_def round_def float32_products)

text \<open>
  Claim C1, amended. For every input buffer the quantizer keeps the length and maps each
  sample \<open>b[i]\<close> to the float32 product \<open>b[i] * 32767\<close>, clipped to the range from
  -32767 to 32767 and then truncated towards zero; the 16-bit result holds exactly that
  integer.
\<close>

theorem quantizer_truncates_symmetric_clip:
  "i < length buffer \<Longrightarrow>
     length (wav_int16 buffer) = length buffer
     \<and> sint (wav_int16 buffer ! i) =
           trunc_toward_zero (clip (- 32767) 32767 (float32_round (buffer ! i * 32767)))"
  by (simp add: length_wav_int16 wav_int16_nth sint_astype_int16_clip)

theorem quantizer_truncates_symmetric_clip_witness:
  "(1::nat) < length [32769 / 65536, - 2 :: real]
     \<and> length (wav_int16 [32769 / 65536, - 2]) = 2
     \<and> sint (wav_int16 [32769 / 65536, - 2] ! 0) = 16384
     \<and> sint (wav_int16 [32769 / 65536, - 2] ! 1) = - 32767"
  using quantizer_truncates_symmetric_clip [of 0 "[32769 / 65536, - 2]"]
    quantizer_truncates_symmetric_clip [of 1 "[32769 / 65536, - 2]"]
  by (simp add: clip_def trunc_toward_zero_def float32_products)

lemma clip_above: "32767 \<le> y \<Longrightarrow> clip (- 32767) 32767 y = 32767"
  by (simp add: clip_def)

lemma clip_below: "y \<le> - 32767 \<Longrightarrow> clip (- 32767) 32767 y = - 32767"
  by (simp add: clip_def)

lemma clip_inside: "- 32767 \<le> y \<Longrightarrow> y \<le> 32767 \<Longrightarrow> clip (- 32767) 32767 y = y"
  by (simp add: clip_def)

lemma float32_round_32767: "float32_round 32767 = 32767" "float32_round (- 32767) = - 32767"
  using float32_round_of_int [of 32767] float32_round_of_int [of "- 32767"] by simp_all

text \<open>
  Claim C8, as stated, fails in one point: a scaled value below the 16-bit range is not
  saturated to the nearest representable boundary \<open>- 32768\<close>. The sample \<open>- 2\<close> has the
  scaled value \<open>- 65534\<close> and is stored as \<open>- 32767\<close>.
\<close>

theorem quantizer_low_boundary_counterexample:
  "float32_round ([- 2 :: real] ! 0 * 32767) < - 32768 \<and> sint (wav_int16 [- 2] ! 0) \<noteq> - 32768"
  by (simp add: wav_int16_def astype_int16_def clip_def max_int16_def trunc_toward_zero_def
      float32_products)

text \<open>
  Claim C8, amended. For every input buffer every quantized sample lies within
  -32768 .. 32767. A scaled value (the float32 product) of 32767 or more is stored as
  32767 and a scaled value of -32767 or less is stored as -32767, the bound of the
  clip; a scaled value in between is stored truncated towards zero. In particular every
  sample of 1 or more is stored as 32767 and every sample of -1 or less as -32767. The
  stored 16-bit value is that integer itself, so nothing wraps around, and the quantizer
  has no error result.
\<close>

theorem quantizer_saturates:
  assumes "i < length buffer"
  shows "- 32768 \<le> sint (wav_int16 buffer ! i) \<and> sint (wav_int16 buffer ! i) \<le> 32767
    \<and> (32767 \<le> float32_round (buffer ! i * 32767) \<longrightarrow> sint (wav_int16 buffer ! i) = 32767)
    \<and> (float32_round (buffer ! i * 32767) \<le> - 32767 \<longrightarrow>
         sint (wav_int16 buffer ! i) = - 32767)
    \<and> (- 32767 \<le> float32_round (buffer ! i * 32767)
         \<and> float32_round (buffer ! i * 32767) \<le> 32767 \<longrightarrow>
         sint (wav_int16 buffer ! i) = trunc_toward_zero (float32_round (buffer ! i * 32767)))
    \<and> (1 \<le> buffer ! i \<longrightarrow> sint (wav_int16 buffer ! i) = 32767)
    \<and> (buffer ! i \<le> - 1 \<longrightarrow> sint (wav_int16 buffer ! i) = - 32767)"
proof -
  let ?y = "float32_round (buffer ! i * 32767)"
  have q: "sint (wav_int16 buffer ! i) = trunc_toward_zero (clip (- 32767) 32767 ?y)"
    using assms by (simp add: wav_int16_nth sint_astype_int16_clip)
  have r: "- 32768 \<le> sint (wav_int16 buffer ! i) \<and> sint (wav_int16 buffer ! i) \<le> 32767"
    using trunc_clip_range [of ?y] q by simp
  have a: "32767 \<le> ?y \<longrightarrow> sint (wav_int16 buffer ! i) = 32767"
    using q by (simp add: clip_above trunc_toward_zero_def)
  have b: "?y \<le> - 32767 \<longrightarrow> sint (wav_int16 buffer ! i) = - 32767"
    using q by (simp add: clip_below trunc_toward_zero_def)
  have c: "- 32767 \<le> ?y \<and> ?y \<le> 32767 \<longrightarrow>
      sint (wav_int16 buffer ! i) = trunc_toward_zero ?y"
    using q by (simp add: clip_inside)
  have d: "1 \<le> buffer ! i \<longrightarrow> sint (wav_int16 buffer ! i) = 32767"
  proof
    assume "1 \<le> buffer ! i"
    then have "float32_round 32767 \<le> ?y" by (intro float32_round_mono) simp
    then show "sint (wav_int16 buffer ! i) = 32767"
      using a by (simp add: float32_round_32767)
  qed
  have e: "buffer ! i \<le> - 1 \<longrightarrow> sint (wav_int16 buffer ! i) = - 32767"
  proof
    assume "buffer ! i \<le> - 1"
    then have "?y \<le> float32_round (- 32767)" by (intro float32_round_mono) simp
    then show "sint (wav_int16 buffer ! i) = - 32767"
      using b by (simp add: float32_round_32767)
  qed
  show ?thesis using r a b c d e by blast
qed

theorem quantizer_saturates_witness:
  "(2::nat) < length [3, - 2, 1 / 2 :: real]
   \<and> 32767 \<le> float32_round ([3, - 2, 1 / 2 :: real] ! 0 * 32767)
   \<and> (1::real) \<le> [3, - 2, 1 / 2] ! 0
   \<and> sint (wav_int16 [3, - 2, 1 / 2] ! 0) = 32767
   \<and> float32_round ([3, - 2, 1 / 2 :: real] ! 1 * 32767) \<le> - 32767
   \<and> [3, - 2, 1 / 2] ! 1 \<le> (- 1 :: real)
   \<and> sint (wav_int16 [3, - 2, 1 / 2] ! 1) = - 32767
   \<and> - 32767 \<le> float32_round ([3, - 2, 1 / 2 :: real] ! 2 * 32767)
   \<and> float32_round ([3, - 2, 1 / 2 :: real] ! 2 * 32767) \<le> 32767
   \<and> sint (wav_int16 [3, - 2, 1 / 2] ! 2) = 16383"
  using quantizer_saturates [of 0 "[3, - 2, 1 / 2]"]
    quantizer_saturates [of 1 "[3, - 2, 1 / 2]"]
    quantizer_saturates [of 2 "[3, - 2, 1 / 2]"]
  by (simp add: trunc_toward_zero_def float32_products)



section \<open>Properties of the generator\<close>

lemma float64_overflow_iff: "float64_overflow x \<longleftrightarrow> 2 ^ 1024 - 2 ^ 970 \<le> \<bar>x\<bar>"
proof -
  have "(2 - 2 powi (- 53)) * 2 powi 1023 = (2 ^ 1024 - 2 ^ 970 :: real)"
    by (simp add: power_int_minus field_simps)
  then show ?thesis by (simp add: float64_overflow_def)
qed

lemma not_float64_overflow:
  assumes "\<bar>x\<bar> \<le> 2 ^ 1023"
  shows "\<not> float64_overflow x"
proof -
  have "(2::real) ^ 1023 < 2 ^ 1024 - 2 ^ 970" by simp
  then show ?thesis using assms by (simp add: float64_overflow_iff)
qed

lemma float_mul_sign:
  assumes "0 < r" and "0 \<le> s" and "float_mul (Finite r) s = Finite p"
  shows "0 \<le> p"
  using assms float64_round_nonneg [of "r * s"] by (auto split: if_splits)

lemma float_of_int_nonneg:
  assumes "0 \<le> k" and "float_of_int k = Inr s"
  shows "0 \<le> s"
  using assms float64_round_nonneg [of "of_int k"]
  by (auto simp add: float_of_int_def split: if_splits)

lemma n_samples_valid_nonneg:
  assumes "0 < r" and "0 < sample_rate" and "n_samples (Finite r) sample_rate = Inr n"
  shows "0 \<le> n"
proof -
  obtain s where s: "float_of_int sample_rate = Inr s"
    using assms(3) by (auto simp add: n_samples_def float_times_int_def split: sum.splits)
  then have s0: "0 \<le> s" using float_of_int_nonneg [of sample_rate s] assms(2) by simp
  obtain p where p: "float_mul (Finite r) s = Finite p" and n: "n = trunc_toward_zero p"
    using assms(3) s
    by (cases "float_mul (Finite r) s") (auto simp add: n_samples_def float_times_int_def)
  have "0 \<le> p" using float_mul_sign [OF assms(1) s0 p] .
  then show ?thesis using n by (simp add: trunc_toward_zero_def)
qed

lemma n_samples_error:
  assumes "n_samples duration_sec sample_rate = Inl e"
  shows "e = OverflowError \<or> e = ValueError \<and> (\<forall>r. duration_sec \<noteq> Finite r)"
proof (cases "float_of_int sample_rate")
  case (Inl e')
  then show ?thesis
    using assms by (auto simp add: n_samples_def float_times_int_def float_of_int_def split: if_splits)
next
  case (Inr s)
  then have "py_int (float_mul duration_sec s) = Inl e"
    using assms by (simp add: n_samples_def float_times_int_def)
  then show ?thesis
    by (cases duration_sec; cases "float_mul duration_sec s") (auto split: if_splits)
qed

lemma generate_cases:
  "generate_white_noise draw refuse duration_sec sample_rate amplitude =
     (case n_samples duration_sec sample_rate of
        Inl e \<Rightarrow> Inl e
      | Inr n \<Rightarrow>
          if n < 0 \<or> 2 ^ 63 \<le> n then Inl ValueError
          else (case refuse n of
                  Some e \<Rightarrow> Inl e
                | None \<Rightarrow>
                    Inr (map (\<lambda>i. float32_round (float32_round (draw i) * float32_round amplitude))
                          [0..<nat n])))"
  by (simp add: generate_white_noise_def random_normal_def Let_def o_def
      split: sum.split option.split)

text \<open>
  Claim C2, amended. \<open>generate\<close> does not validate its parameters. Let \<open>n\<close> be
  \<open>int(duration_seconds * sample_rate)\<close>. When that expression raises (\<open>OverflowError\<close>
  for a sample rate or a product beyond the range of a double, \<open>ValueError\<close> for NaN),
  the call raises the same. When \<open>n\<close> is negative or no valid array size, the call
  fails with NumPy's \<open>ValueError\<close>. When NumPy cannot create an array of \<open>n\<close> samples,
  the call fails with NumPy's exception. In every other case it returns a buffer of
  \<open>n\<close> samples, a zero-length buffer when \<open>n\<close> is 0. For valid parameters
  (\<open>duration_seconds > 0\<close> and \<open>sample_rate > 0\<close>) \<open>n\<close> is never negative.
\<close>

theorem generate_without_validation:
  "(\<forall>e. n_samples duration_sec sample_rate = Inl e \<longrightarrow>
      generate_white_noise draw refuse duration_sec sample_rate amplitude = Inl e
      \<and> (e = OverflowError \<or> e = ValueError))
   \<and> (\<forall>n. n_samples duration_sec sample_rate = Inr n \<longrightarrow>
        (n < 0 \<or> 2 ^ 63 \<le> n \<longrightarrow>
           generate_white_noise draw refuse duration_sec sample_rate amplitude = Inl ValueError)
      \<and> (0 \<le> n \<and> n < 2 ^ 63 \<longrightarrow>
           (\<forall>e. refuse n = Some e \<longrightarrow>
              generate_white_noise draw refuse duration_sec sample_rate amplitude = Inl e)
         \<and> (refuse n = None \<longrightarrow>
              (\<exists>buffer.
                 generate_white_noise draw refuse duration_sec sample_rate amplitude = Inr buffer
                 \<and> int (length buffer) = n)))
      \<and> (float_gt_zero duration_sec \<and> 0 < sample_rate \<longrightarrow> 0 \<le> n))"
proof -
  have a: "\<forall>e. n_samples duration_sec sample_rate = Inl e \<longrightarrow>
      generate_white_noise draw refuse duration_sec sample_rate amplitude = Inl e
      \<and> (e = OverflowError \<or> e = ValueError)"
    using n_samples_error [of duration_sec sample_rate] by (auto simp add: generate_cases)
  have b: "\<forall>n. n_samples duration_sec sample_rate = Inr n \<longrightarrow>
      (float_gt_zero duration_sec \<and> 0 < sample_rate \<longrightarrow> 0 \<le> n)"
  proof (intro allI impI)
    fix n
    assume n: "n_samples duration_sec sample_rate = Inr n"
      and v: "float_gt_zero duration_sec \<and> 0 < sample_rate"
    show "0 \<le> n"
    proof (cases duration_sec)
      case (Finite r)
      then show ?thesis using n v n_samples_valid_nonneg [of r sample_rate n] by simp
    next
      case PosInf
      then show ?thesis
        using n by (auto simp add: n_samples_def float_times_int_def split: sum.splits if_splits)
    qed (use v in simp_all)
  qed
  have c: "\<forall>n. n_samples duration_sec sample_rate = Inr n \<longrightarrow>
        (n < 0 \<or> 2 ^ 63 \<le> n \<longrightarrow>
           generate_white_noise draw refuse duration_sec sample_rate amplitude = Inl ValueError)
      \<and> (0 \<le> n \<and> n < 2 ^ 63 \<longrightarrow>
           (\<forall>e. refuse n = Some e \<longrightarrow>
              generate_white_noise draw refuse duration_sec sample_rate amplitude = Inl e)
         \<and> (refuse n = None \<longrightarrow>
              (\<exists>buffer.
                 generate_white_noise draw refuse duration_sec sample_rate amplitude = Inr buffer
                 \<and> int (length buffer) = n)))"
    by (auto simp add: generate_cases)
  show ?thesis using a b c by blast
qed

lemma float_of_int_small:
  assumes "\<bar>k\<bar> < 2 ^ 53"
  shows "float_of_int k = Inr (of_int k)"
proof -
  have "\<bar>real_of_int k\<bar> < 2 ^ 53" using assms
    by (metis of_int_abs of_int_less_numeral_power_cancel_iff)
  also have "\<dots> \<le> (2::real) ^ 1023" by (intro power_increasing) simp_all
  finally have "\<not> float64_overflow (of_int k)" by (intro not_float64_overflow) simp
  then show ?thesis
    using assms by (simp add: float_of_int_def float64_round_of_int)
qed

lemma float64_products:
  "float64_round (double_0_7 * 10) = 7"
  "float64_round 0 = 0"
  by code_simp+

lemma n_samples_examples:
  "n_samples (Finite 0) 48000 = Inr 0"
  "n_samples (Finite double_2_1000) 1073741824 = Inl OverflowError"
  "n_samples (Finite 2) (- 1) = Inr (- 2)"
proof -
  have a: "float_of_int 48000 = Inr 48000" "float_of_int 1073741824 = Inr 1073741824"
      "float_of_int (- 1) = Inr (- 1)"
    using float_of_int_small [of 48000] float_of_int_small [of 1073741824]
      float_of_int_small [of "- 1"] by simp_all
  have b: "float64_overflow (double_2_1000 * 1073741824)"
    by (simp add: float64_overflow_iff double_2_1000_def)
  have c: "\<not> float64_overflow 0" "\<not> float64_overflow (- 2)"
    by (simp_all add: not_float64_overflow)
  have d: "float64_round (- 2) = - 2"
    using float64_round_of_int [of "- 2"] by simp
  show "n_samples (Finite 0) 48000 = Inr 0"
    using a c by (simp add: n_samples_def float_times_int_def float64_products trunc_toward_zero_def)
  show "n_samples (Finite double_2_1000) 1073741824 = Inl OverflowError"
    using a b by (simp add: n_samples_def float_times_int_def)
  show "n_samples (Finite 2) (- 1) = Inr (- 2)"
    using a c d by (simp add: n_samples_def float_times_int_def trunc_toward_zero_def)
qed

text \<open>
  Claim C2, as stated, fails: with \<open>duration_sec = 0\<close> the call raises nothing and
  returns the empty buffer; and with the valid parameters \<open>duration_sec = 2 ^ 1000\<close> and
  \<open>sample_rate = 2 ^ 30\<close> the product is no finite double and the call raises
  \<open>OverflowError\<close>.
\<close>

theorem generate_zero_duration_counterexample:
  "generate_white_noise alternating_draw refuse_large (Finite 0) 48000 (1 / 5) = Inr []
   \<and> float_gt_zero (Finite double_2_1000) \<and> (0::int) < 1073741824
   \<and> generate_white_noise alternating_draw refuse_large (Finite double_2_1000) 1073741824 (1 / 5)
       = Inl OverflowError"
proof -
  have "0 < double_2_1000" by (simp add: double_2_1000_def)
  then show ?thesis
    by (simp add: generate_cases n_samples_examples refuse_large_def)
qed

theorem generate_without_validation_witness:
  "generate_white_noise alternating_draw refuse_large (Finite 2) (- 1) (1 / 5) = Inl ValueError
   \<and> generate_white_noise alternating_draw refuse_large (Finite double_2_1000) 1073741824 (1 / 5)
       = Inl OverflowError
   \<and> (\<exists>buffer. generate_white_noise alternating_draw refuse_large (Finite 0) 48000 (1 / 5)
         = Inr buffer \<and> int (length buffer) = 0)"
  using generate_without_validation [of "Finite 2" "- 1" alternating_draw refuse_large "1 / 5"]
    generate_without_validation
      [of "Finite double_2_1000" 1073741824 alternating_draw refuse_large "1 / 5"]
    generate_without_validation [of "Finite 0" 48000 alternating_draw refuse_large "1 / 5"]
  by (simp add: n_samples_examples refuse_large_def)

lemma n_samples_Inr:
  assumes "n_samples duration_sec sample_rate = Inr n"
  shows "\<exists>product. float_times_int duration_sec sample_rate = Inr (Finite product)
           \<and> n = trunc_toward_zero product"
proof -
  obtain p where p: "float_times_int duration_sec sample_rate = Inr p" and n: "py_int p = Inr n"
    using assms by (auto simp add: n_samples_def split: sum.splits)
  then show ?thesis by (cases p) simp_all
qed

lemma float_times_int_valid_nonneg:
  assumes "float_gt_zero duration_sec" and "0 < sample_rate"
    and "float_times_int duration_sec sample_rate = Inr (Finite product)"
  shows "0 \<le> product"
proof -
  obtain s where s: "float_of_int sample_rate = Inr s"
      and m: "float_mul duration_sec s = Finite product"
    using assms(3) by (auto simp add: float_times_int_def split: sum.splits)
  have s0: "0 \<le> s" using float_of_int_nonneg [of sample_rate s] assms(2) s by simp
  show ?thesis
  proof (cases duration_sec)
    case (Finite r)
    then show ?thesis using float_mul_sign [of r s product] assms(1) s0 m by simp
  qed (use m assms(1) in \<open>auto split: if_splits\<close>)
qed

text \<open>
  Claim C3. For every \<open>duration_seconds > 0\<close> and \<open>sample_rate > 0\<close>, the buffer returned
  by \<open>generate\<close> has length exactly \<open>floor(duration_seconds * sample_rate)\<close>, the product
  being the one the program computes, a double. A buffer is returned whenever that
  product is finite and NumPy can create an array of that size.
\<close>

theorem generate_length:
  assumes "float_gt_zero duration_sec" and "0 < sample_rate"
  shows "(\<forall>buffer.
            generate_white_noise draw refuse duration_sec sample_rate amplitude = Inr buffer \<longrightarrow>
            (\<exists>product. float_times_int duration_sec sample_rate = Inr (Finite product)
               \<and> int (length buffer) = \<lfloor>product\<rfloor>))
    \<and> (\<forall>product.
            float_times_int duration_sec sample_rate = Inr (Finite product)
            \<and> \<lfloor>product\<rfloor> < 2 ^ 63 \<and> refuse \<lfloor>product\<rfloor> = None \<longrightarrow>
            (\<exists>buffer.
               generate_white_noise draw refuse duration_sec sample_rate amplitude = Inr buffer))"
proof (intro conjI allI impI)
  fix buffer
  assume g: "generate_white_noise draw refuse duration_sec sample_rate amplitude = Inr buffer"
  then obtain n where n: "n_samples duration_sec sample_rate = Inr n"
    by (auto simp add: generate_cases split: sum.splits)
  from g n have len: "int (length buffer) = n" and "0 \<le> n"
    by (auto simp add: generate_cases split: if_splits option.splits)
  obtain product where p: "float_times_int duration_sec sample_rate = Inr (Finite product)"
      and t: "n = trunc_toward_zero product"
    using n_samples_Inr [OF n] by blast
  have "0 \<le> product" using float_times_int_valid_nonneg [OF assms p] .
  then have "n = \<lfloor>product\<rfloor>" using t by (simp add: trunc_toward_zero_def)
  then show "\<exists>product. float_times_int duration_sec sample_rate = Inr (Finite product)
      \<and> int (length buffer) = \<lfloor>product\<rfloor>"
    using p len by simp
next
  fix product
  assume h: "float_times_int duration_sec sample_rate = Inr (Finite product)
      \<and> \<lfloor>product\<rfloor> < 2 ^ 63 \<and> refuse \<lfloor>product\<rfloor> = None"
  then have p0: "0 \<le> product" using float_times_int_valid_nonneg [OF assms] by simp
  then have "n_samples duration_sec sample_rate = Inr \<lfloor>product\<rfloor>"
    using h by (simp add: n_samples_def trunc_toward_zero_def)
  then show "\<exists>buffer.
      generate_white_noise draw refuse duration_sec sample_rate amplitude = Inr buffer"
    using h p0 by (simp add: generate_cases)
qed

theorem generate_length_witness:
  "float_gt_zero (Finite double_0_7) \<and> (0::int) < 10
   \<and> float_times_int (Finite double_0_7) 10 = Inr (Finite 7)
   \<and> (\<exists>buffer. generate_white_noise alternating_draw refuse_large
         (Finite double_0_7) 10 (1 / 5) = Inr buffer
       \<and> int (length buffer) = 7)"
proof -
  have a: "float_of_int 10 = Inr 10"
    using float_of_int_small [of 10] by simp
  have b: "\<not> float64_overflow (double_0_7 * 10)"
    by (intro not_float64_overflow) (simp add: double_0_7_def)
  have p: "float_times_int (Finite double_0_7) 10 = Inr (Finite 7)"
    using a b by (simp add: float_times_int_def float64_products)
  have v: "float_gt_zero (Finite double_0_7)" "(0::int) < 10"
    by (simp_all add: double_0_7_def)
  note t = generate_length [OF v, of alternating_draw refuse_large "1 / 5"]
  obtain buffer where g: "generate_white_noise alternating_draw refuse_large
      (Finite double_0_7) 10 (1 / 5) = Inr buffer"
    using t p by (auto simp add: refuse_large_def)
  then have "int (length buffer) = 7"
    using t p by auto
  then show ?thesis using v p g by blast
qed

section \<open>Properties of the three consumers\<close>

lemma arrays_alloc: "p < lim s \<Longrightarrow> arrays (snd (alloc a s)) p = arrays s p"
  by (simp add: alloc_def)

lemma arrays_library_call: "arrays (snd (library_call lib ev s)) = arrays s"
  by (simp add: library_call_def)

lemma play_audio_frame:
  "arrays (snd (play_audio lib buffer sample_rate s)) = arrays s"
  by (simp add: play_audio_def arrays_library_call split: option.split ndarray.split)

lemma save_wav_frame:
  "buffer < lim s \<Longrightarrow>
     arrays (snd (save_wav lib buffer sample_rate filename s)) buffer = arrays s buffer"
  by (simp add: save_wav_def alloc_def library_call_def Let_def
      split: option.split ndarray.split)

lemma plot_signal_and_spectrum_frame:
  "buffer < lim s \<Longrightarrow>
     arrays (snd (plot_signal_and_spectrum lib fft_coefficient absolute buffer sample_rate s))
       buffer = arrays s buffer"
  by (simp add: plot_signal_and_spectrum_def alloc_def library_call_def Let_def
      split: option.split ndarray.split sum.split)

lemma demo_state_simps:
  "arrays demo_state 0 = Some (Float_array [1 / 2, - 2])"
  "lim demo_state = 1"
  "trace demo_state = []"
  by (simp_all add: demo_state_def alloc_def empty_state_def)

text \<open>
  Claim C7. Each of the three consumers (the WAV encoder, the spectrum analyzer and the
  playback sink) leaves the buffer unchanged: after the call the array stored at the
  buffer's address is the one stored there before, whether or not the call raised.
\<close>

theorem consumers_leave_buffer_unchanged:
  assumes "buffer < lim s"
  shows "arrays (snd (save_wav lib buffer sample_rate filename s)) buffer = arrays s buffer
    \<and> arrays (snd (plot_signal_and_spectrum lib fft_coefficient absolute buffer sample_rate s))
        buffer = arrays s buffer
    \<and> arrays (snd (play_audio lib buffer sample_rate s)) buffer = arrays s buffer"
  using assms
  by (simp add: save_wav_frame plot_signal_and_spectrum_frame play_audio_frame)

theorem consumers_leave_buffer_unchanged_witness:
  "0 < lim demo_state
   \<and> arrays (snd (save_wav no_failure 0 48000 ''white_noise.wav'' demo_state)) 0
       = Some (Float_array [1 / 2, - 2])
   \<and> arrays (snd (plot_signal_and_spectrum no_failure dft_coefficient cmod 0 48000 demo_state)) 0
       = Some (Float_array [1 / 2, - 2])
   \<and> arrays (snd (play_audio no_failure 0 48000 demo_state)) 0
       = Some (Float_array [1 / 2, - 2])"
  using consumers_leave_buffer_unchanged
    [of 0 demo_state no_failure 48000 "''white_noise.wav''" dft_coefficient cmod]
  by (simp add: demo_state_simps)

lemma save_wav_trace:
  assumes "arrays s buffer = Some (Float_array xs)"
  shows "trace (snd (save_wav lib buffer sample_rate filename s)) =
     trace s @ [Wavfile_write filename sample_rate (wav_int16 xs)]"
  using assms
  by (simp add: save_wav_def wav_int16_def alloc_def library_call_def Let_def o_def)

lemma save_wav_result:
  assumes "arrays s buffer = Some (Float_array xs)"
  shows "fst (save_wav lib buffer sample_rate filename s) =
     lib (trace s) (Wavfile_write filename sample_rate (wav_int16 xs))"
  using assms
  by (simp add: save_wav_def wav_int16_def alloc_def library_call_def Let_def o_def)

lemma float64_round_between:
  assumes "- 1074 \<le> i" and "- 1074 \<le> j" and "2 powi i \<le> x" and "x \<le> 2 powi j"
  shows "2 powi i \<le> float64_round x \<and> float64_round x \<le> 2 powi j"
  using float64_round_mono [OF assms(3)] float64_round_mono [OF assms(4)]
    float64_round_two_powi [OF assms(1)] float64_round_two_powi [OF assms(2)]
  by simp

lemma float64_round_one: "float64_round 1 = 1"
  using float64_round_of_int [of 1] by simp

lemma float_of_int_moderate:
  assumes "0 < k" and "k \<le> 2 ^ 63"
  shows "\<exists>s. float_of_int k = Inr s \<and> 1 \<le> s \<and> s \<le> 2 powi 63"
proof -
  have r: "1 \<le> real_of_int k" "real_of_int k \<le> 2 powi 63"
    using assms by simp_all
  have "\<bar>real_of_int k\<bar> \<le> 2 ^ 63" using assms by simp
  also have "\<dots> \<le> (2::real) ^ 1023" by (intro power_increasing) simp_all
  finally have n: "\<not> float64_overflow (of_int k)" by (rule not_float64_overflow)
  have "2 powi 0 \<le> float64_round (of_int k) \<and> float64_round (of_int k) \<le> 2 powi 63"
    using r by (intro float64_round_between) simp_all
  then show ?thesis using n by (simp add: float_of_int_def)
qed

lemma moderate_inverse:
  fixes x :: real
  assumes "2 powi (- 63) \<le> x" and "x \<le> 2 powi 63"
  shows "2 powi (- 63) \<le> 1 / x \<and> 1 / x \<le> 2 powi 63"
proof -
  have x: "0 < x" using assms(1) zero_less_power_int [of "2::real" "- 63"] by linarith
  have a: "1 / x \<le> 1 / 2 powi (- 63)"
    using assms(1) by (intro divide_left_mono) simp_all
  have b: "1 / 2 powi 63 \<le> 1 / x"
    using assms(2) x by (intro divide_left_mono) simp_all
  have "1 / (2::real) powi (- 63) = 2 powi 63" "1 / (2::real) powi 63 = 2 powi (- 63)"
    by (simp_all add: power_int_minus field_simps)
  then show ?thesis using a b by simp
qed

end
